theory Spec2Isabelle
  imports
    Complex_Main
    "HOL-Library.Multiset"
    "HOL-Library.Sublist"
    "HOL-Library.Char_ord"
    "HOL-Library.List_Lexorder"
begin

section \<open>JavaScript values used by the dashboard\<close>

text \<open>
  Strings are lists of characters. \<open>str_includes s t\<close> is \<open>s.includes(t)\<close>: the
  argument occurs in the string as a contiguous run of characters.
\<close>

fun str_includes :: "string \<Rightarrow> string \<Rightarrow> bool" where
  "str_includes [] t = (t = [])"
| "str_includes (c # s) t = (prefix t (c # s) \<or> str_includes s t)"

text \<open>
  \<open>String.prototype.toLowerCase\<close> works from the case tables of the runtime, for
  every cased letter of every script. The functions that call it take it as an
  argument, \<open>lower\<close>, like the date parser below. \<open>ascii_toLowerCase\<close> is what it does
  on text made of ASCII characters: it lowers A to Z; it serves as the runtime's
  function where a concrete ASCII input is computed.
\<close>

definition lower_char :: "char \<Rightarrow> char" where
  "lower_char c =
     (case map_of (zip ''ABCDEFGHIJKLMNOPQRSTUVWXYZ'' ''abcdefghijklmnopqrstuvwxyz'') c of
        Some l \<Rightarrow> l
      | None \<Rightarrow> c)"

definition ascii_toLowerCase :: "string \<Rightarrow> string" where
  "ascii_toLowerCase s = map lower_char s"

text \<open>
  A JavaScript number as far as the helpers below look at it: \<open>NaN\<close>, the two
  infinities, or a finite value. Every comparison with \<open>NaN\<close> is false.
\<close>

datatype number = NaN | NegInfinity | Finite real | PosInfinity

fun num_less :: "number \<Rightarrow> real \<Rightarrow> bool" where
  "num_less NaN c = False"
| "num_less NegInfinity c = True"
| "num_less (Finite x) c = (x < c)"
| "num_less PosInfinity c = False"

fun num_le :: "number \<Rightarrow> real \<Rightarrow> bool" where
  "num_le NaN c = False"
| "num_le NegInfinity c = True"
| "num_le (Finite x) c = (x \<le> c)"
| "num_le PosInfinity c = False"

text \<open>
  \<open>new Date(s)\<close> and \<open>new Date()\<close> belong to the runtime: the functions that use them
  take the parser (\<open>None\<close> is an Invalid Date) and the clock reading, both in
  milliseconds since the epoch, as arguments.
\<close>

type_synonym date_parser = "string \<Rightarrow> int option"

section \<open>Threat records\<close>

record threat =
  cveID :: string
  vendorProject :: string
  product :: string
  vulnerabilityName :: string
  dateAdded :: string
  dueDate :: string
  severity :: string
  cwes :: "string list"
  shortDescription :: string
  knownRansomwareCampaignUse :: string
  requiredAction :: string

section \<open>Display helpers: App.jsx and api.js\<close>

text \<open>The four helpers as App.jsx defines them inside the component.\<close>

definition App_getSeverityColor :: "string \<Rightarrow> string" where
  "App_getSeverityColor sev =
     (if sev = ''Critical'' then ''bg-red-500''
      else if sev = ''High'' then ''bg-orange-500''
      else if sev = ''Medium'' then ''bg-yellow-500''
      else if sev = ''Low'' then ''bg-green-500''
      else ''bg-gray-500'')"

definition App_getSeverityBadgeVariant :: "string \<Rightarrow> string" where
  "App_getSeverityBadgeVariant sev =
     (if sev = ''Critical'' then ''destructive''
      else if sev = ''High'' then ''destructive''
      else if sev = ''Medium'' then ''secondary''
      else if sev = ''Low'' then ''outline''
      else ''outline'')"

definition App_getDaysUntilDue :: "date_parser \<Rightarrow> int \<Rightarrow> string \<Rightarrow> number" where
  "App_getDaysUntilDue parse now due_date =
     (case parse due_date of
        None \<Rightarrow> NaN
      | Some due \<Rightarrow>
          (let diffTime = due - now;
               diffDays = \<lceil>real_of_int diffTime / (1000 * 60 * 60 * 24)\<rceil>
           in Finite (real_of_int diffDays)))"

definition App_getUrgencyColor :: "number \<Rightarrow> string" where
  "App_getUrgencyColor daysUntilDue =
     (if num_less daysUntilDue 0 then ''text-red-600 font-bold''
      else if num_le daysUntilDue 3 then ''text-orange-600 font-semibold''
      else if num_le daysUntilDue 7 then ''text-yellow-600''
      else ''text-gray-600'')"

text \<open>The same four names as api.js exports them.\<close>

definition api_getDaysUntilDue :: "date_parser \<Rightarrow> int \<Rightarrow> string \<Rightarrow> number" where
  "api_getDaysUntilDue parse now due_date =
     (case parse due_date of
        None \<Rightarrow> NaN
      | Some due \<Rightarrow>
          (let diffTime = due - now;
               diffDays = \<lceil>real_of_int diffTime / (1000 * 60 * 60 * 24)\<rceil>
           in Finite (real_of_int diffDays)))"

definition api_getSeverityColor :: "string \<Rightarrow> string" where
  "api_getSeverityColor sev =
     (if sev = ''Critical'' then ''bg-red-500''
      else if sev = ''High'' then ''bg-orange-500''
      else if sev = ''Medium'' then ''bg-yellow-500''
      else if sev = ''Low'' then ''bg-green-500''
      else ''bg-gray-500'')"

definition api_getSeverityBadgeVariant :: "string \<Rightarrow> string" where
  "api_getSeverityBadgeVariant sev =
     (if sev = ''Critical'' then ''destructive''
      else if sev = ''High'' then ''destructive''
      else if sev = ''Medium'' then ''secondary''
      else if sev = ''Low'' then ''outline''
      else ''outline'')"

definition api_getUrgencyColor :: "number \<Rightarrow> string" where
  "api_getUrgencyColor daysUntilDue =
     (if num_less daysUntilDue 0 then ''text-red-600 font-bold''
      else if num_le daysUntilDue 3 then ''text-orange-600 font-semibold''
      else if num_le daysUntilDue 7 then ''text-yellow-600''
      else ''text-gray-600'')"

section \<open>Pagination in App.jsx\<close>

text \<open>
  \<open>Array.prototype.slice(start, end)\<close>: a negative index counts from the end, both
  indices are clamped to the length, and an empty range gives the empty list.
\<close>

definition slice :: "'a list \<Rightarrow> int \<Rightarrow> int \<Rightarrow> 'a list" where
  "slice xs start fin =
     (let len = int (length xs);
          k = (if start < 0 then max (len + start) 0 else min start len);
          final = (if fin < 0 then max (len + fin) 0 else min fin len)
      in take (nat (final - k)) (drop (nat k) xs))"

definition itemsPerPage :: nat where
  "itemsPerPage = 10"

definition totalPages :: "'a list \<Rightarrow> int" where
  "totalPages filteredThreats = \<lceil>real (length filteredThreats) / real itemsPerPage\<rceil>"

definition paginatedThreats :: "'a list \<Rightarrow> int \<Rightarrow> 'a list" where
  "paginatedThreats filteredThreats currentPage =
     slice filteredThreats ((currentPage - 1) * int itemsPerPage)
       (currentPage * int itemsPerPage)"

section \<open>The mock data of api.js\<close>

definition mockThreats :: "threat list" where
  "mockThreats =
     [\<lparr>cveID = ''CVE-2025-20362'', vendorProject = ''Cisco'',
       product = ''Secure Firewall Adaptive Security Appliance'',
       vulnerabilityName = ''Cisco Secure Firewall Missing Authorization Vulnerability'',
       dateAdded = ''2025-09-25'', dueDate = ''2025-09-26'', severity = ''Critical'',
       cwes = [''CWE-862''],
       shortDescription =
         ''Missing authorization vulnerability that could be chained with CVE-2025-20333'',
       knownRansomwareCampaignUse = ''Unknown'',
       requiredAction = ''Apply mitigations per vendor instructions''\<rparr>,
      \<lparr>cveID = ''CVE-2025-20333'', vendorProject = ''Cisco'',
       product = ''Secure Firewall Threat Defense'',
       vulnerabilityName = ''Cisco Secure Firewall Buffer Overflow Vulnerability'',
       dateAdded = ''2025-09-25'', dueDate = ''2025-09-26'', severity = ''Critical'',
       cwes = [''CWE-120''],
       shortDescription = ''Buffer overflow vulnerability allowing remote code execution'',
       knownRansomwareCampaignUse = ''Unknown'',
       requiredAction = ''Apply mitigations per vendor instructions''\<rparr>,
      \<lparr>cveID = ''CVE-2025-10585'', vendorProject = ''Google'',
       product = ''Chromium V8'',
       vulnerabilityName = ''Google Chromium V8 Type Confusion Vulnerability'',
       dateAdded = ''2025-09-23'', dueDate = ''2025-10-14'', severity = ''High'',
       cwes = [''CWE-843''],
       shortDescription = ''Type confusion vulnerability in V8 JavaScript engine'',
       knownRansomwareCampaignUse = ''Unknown'',
       requiredAction = ''Apply mitigations per vendor instructions''\<rparr>]"

section \<open>ThreatIntelligenceAPI.fetchThreats in api.js\<close>















section \<open>Facets and statistics in App.jsx\<close>

text \<open>
  \<open>[...new Set(xs)]\<close>: the distinct elements of \<open>xs\<close> in the order of their first
  occurrence.
\<close>

definition Set_add :: "'a list \<Rightarrow> 'a \<Rightarrow> 'a list" where
  "Set_add s x = (if x \<in> set s then s else s @ [x])"

definition new_Set :: "'a list \<Rightarrow> 'a list" where
  "new_Set xs = foldl Set_add [] xs"

text \<open>
  \<open>sort()\<close> without a comparator orders strings by their code units, a proper prefix
  first; this is the lexicographic order on character lists, and \<open>sort\<close> is stable
  as the array sort is.
\<close>

definition uniqueVendors :: "threat list \<Rightarrow> string list" where
  "uniqueVendors threats = sort (new_Set (map vendorProject threats))"

definition uniqueCWEs :: "threat list \<Rightarrow> string list" where
  "uniqueCWEs threats = sort (new_Set (concat (map cwes threats)))"

text \<open>
  \<open>severityStats\<close> keeps its counters in the object literal
  \<open>{ Critical: 0, High: 0, Medium: 0, Low: 0 }\<close> and reads and writes it under
  the key \<open>threat.severity\<close>. Such an object has own properties (here an association
  list in creation order, holding primitive values) and inherits the properties of
  \<open>Object.prototype\<close>; a read that finds no own property returns the inherited one.
\<close>

datatype prim = PNum nat | PStr string

datatype jsval = Prim prim | Undefined | Fn string | ObjectPrototype

definition Object_prototype :: "string \<Rightarrow> jsval" where
  "Object_prototype k =
     (if k = ''__proto__'' then ObjectPrototype
      else if k = ''constructor'' then Fn ''Object''
      else if k \<in> set [''toString'', ''toLocaleString'', ''valueOf'', ''hasOwnProperty'',
                        ''isPrototypeOf'', ''propertyIsEnumerable'', ''__defineGetter__'',
                        ''__defineSetter__'', ''__lookupGetter__'', ''__lookupSetter__'']
      then Fn k
      else Undefined)"

definition get_prop :: "(string \<times> prim) list \<Rightarrow> string \<Rightarrow> jsval" where
  "get_prop obj k = (case map_of obj k of Some v \<Rightarrow> Prim v | None \<Rightarrow> Object_prototype k)"

fun set_own :: "(string \<times> prim) list \<Rightarrow> string \<Rightarrow> prim \<Rightarrow> (string \<times> prim) list" where
  "set_own [] k v = [(k, v)]"
| "set_own ((k', v') # obj) k v = (if k' = k then (k, v) # obj else (k', v') # set_own obj k v)"

text \<open>
  An assignment \<open>obj[k]
      = v\<close> of a primitive value: under \<open>__proto__\<close> it runs the
  inherited setter, which ignores a value that is neither an object nor null; under
  any other key it sets an own property (every other inherited property is a writable
  data property, so the assignment shadows it).
\<close>

definition set_prop :: "(string \<times> prim) list \<Rightarrow> string \<Rightarrow> prim \<Rightarrow> (string \<times> prim) list" where
  "set_prop obj k v = (if k = ''__proto__'' then obj else set_own obj k v)"

text \<open>
  \<open>(x || 0) + 1\<close>: a falsy \<open>x\<close> (undefined, 0, the empty string) counts as 0; a number
  is incremented; for a string, a function or an object \<open>+\<close> is string concatenation.
\<close>

fun or_zero_plus_one :: "jsval \<Rightarrow> prim" where
  "or_zero_plus_one Undefined = PNum 1"
| "or_zero_plus_one (Prim (PNum n)) = PNum (n + 1)"
| "or_zero_plus_one (Prim (PStr s)) = (if s = [] then PNum 1 else PStr (s @ ''1''))"
| "or_zero_plus_one (Fn f) = PStr (''function '' @ f @ ''() { [native code] }1'')"
| "or_zero_plus_one ObjectPrototype = PStr ''[object Object]1''"

text \<open>
  The severities the component's data has: those of \<open>mockThreatData\<close> and the array
  \<open>severities\<close> from which \<open>generateMockData\<close> draws.
\<close>

definition severities :: "string list" where
  "severities = [''Critical'', ''High'', ''Medium'', ''Low'']"

definition count_threat :: "(string \<times> prim) list \<Rightarrow> threat \<Rightarrow> (string \<times> prim) list" where
  "count_threat stats threat =
     set_prop stats (severity threat) (or_zero_plus_one (get_prop stats (severity threat)))"

text \<open>
  \<open>Object.entries\<close> lists the own properties: keys that are array indices (canonical
  decimal numerals below \<open>2^32 - 1\<close>) first, in ascending numeric order, then the other
  keys in creation order.
\<close>

definition digit_value :: "char \<Rightarrow> nat" where
  "digit_value c = of_char c - 48"

definition is_digit :: "char \<Rightarrow> bool" where
  "is_digit c = (48 \<le> (of_char c :: nat) \<and> (of_char c :: nat) \<le> 57)"

definition numeral_value :: "string \<Rightarrow> nat" where
  "numeral_value s = foldl (\<lambda>n c. 10 * n + digit_value c) 0 s"

definition is_array_index :: "string \<Rightarrow> bool" where
  "is_array_index s =
     (s \<noteq> [] \<and> list_all is_digit s \<and> (hd s \<noteq> CHR ''0'' \<or> length s = 1)
      \<and> length s \<le> 10 \<and> numeral_value s < 4294967295)"

definition Object_entries :: "(string \<times> 'v) list \<Rightarrow> (string \<times> 'v) list" where
  "Object_entries obj =
     sort_key (\<lambda>(k, v). numeral_value k) (filter (\<lambda>(k, v). is_array_index k) obj)
     @ filter (\<lambda>(k, v). \<not> is_array_index k) obj"

definition severityStats :: "threat list \<Rightarrow> (string \<times> prim) list" where
  "severityStats threats =
     Object_entries
       (foldl count_threat
          [(''Critical'', PNum 0), (''High'', PNum 0), (''Medium'', PNum 0), (''Low'', PNum 0)]
          threats)"

section \<open>Filtering and sorting in App.jsx\<close>

text \<open>The state variables of the component that the filter and the sort read.\<close>

record app_state =
  searchTerm :: string
  selectedVendor :: string
  selectedSeverity :: string
  selectedCWE :: string
  dateRange :: string
  sortBy :: string
  sortOrder :: string

text \<open>The initial values of the state variables (\<open>useState\<close>).\<close>

definition initial_state :: app_state where
  "initial_state =
     \<lparr>searchTerm = [], selectedVendor = ''all'', selectedSeverity = ''all'',
      selectedCWE = ''all'', dateRange = ''all'', sortBy = ''dateAdded'', sortOrder
          = ''desc''\<rparr>"

definition matchesSearch :: "(string \<Rightarrow> string) \<Rightarrow> app_state \<Rightarrow> threat \<Rightarrow> bool" where
  "matchesSearch lower st threat =
     (searchTerm st = []
      \<or> str_includes (lower (cveID threat)) (lower (searchTerm st))
      \<or> str_includes (lower (vendorProject threat)) (lower (searchTerm st))
      \<or> str_includes (lower (product threat)) (lower (searchTerm st))
      \<or> str_includes (lower (vulnerabilityName threat)) (lower (searchTerm st)))"

definition matchesVendor :: "app_state \<Rightarrow> threat \<Rightarrow> bool" where
  "matchesVendor st threat =
     (selectedVendor st = ''all'' \<or> vendorProject threat = selectedVendor st)"

definition matchesSeverity :: "app_state \<Rightarrow> threat \<Rightarrow> bool" where
  "matchesSeverity st threat =
     (selectedSeverity st = ''all'' \<or> severity threat = selectedSeverity st)"

definition matchesCWE :: "app_state \<Rightarrow> threat \<Rightarrow> bool" where
  "matchesCWE st threat = (selectedCWE st = ''all'' \<or> selectedCWE st \<in> set (cwes threat))"

text \<open>
  A Date holds a time value or is invalid (\<open>None\<close>). \<open>new Date(v)\<close> of a number
  outside \<open>\<plusminus>8.64e15\<close> is invalid, and \<open>>=\<close>, \<open>>\<close> and \<open><\<close> on dates compare the time
  values, with every comparison false when one side is invalid. \<open>parseInt\<close> is the
  runtime's, passed as an argument like the date parser; \<open>None\<close> is its NaN.
\<close>

definition time_clip :: "int \<Rightarrow> int option" where
  "time_clip v = (if \<bar>v\<bar> \<le> 8640000000000000 then Some v else None)"

fun date_ge :: "int option \<Rightarrow> int option \<Rightarrow> bool" where
  "date_ge (Some a) (Some b) = (a \<ge> b)"
| "date_ge _ _ = False"

definition matchesDate ::
  "date_parser \<Rightarrow> (string \<Rightarrow> int option) \<Rightarrow> int \<Rightarrow> app_state \<Rightarrow> threat \<Rightarrow> bool" where
  "matchesDate parse parseInt now st threat =
     (if dateRange st \<noteq> ''all'' then
        (let threatDate = parse (dateAdded threat);
             daysAgo = parseInt (dateRange st);
             cutoffDate = (case daysAgo of
                             None \<Rightarrow> None
                           | Some d \<Rightarrow> time_clip (now - d * 24 * 60 * 60 * 1000))
         in date_ge threatDate cutoffDate)
      else True)"

text \<open>
  The callback of \<open>threats.filter\<close> runs once per threat, in order, and reads the clock
  itself: \<open>clock i\<close> is the reading taken while it handles the threat at index \<open>i\<close>.
\<close>

definition filter_callback ::
  "(string \<Rightarrow> string) \<Rightarrow> date_parser \<Rightarrow> (string \<Rightarrow> int option) \<Rightarrow> app_state \<Rightarrow> int
     \<Rightarrow> threat \<Rightarrow> bool" where
  "filter_callback lower parse parseInt st now threat =
     (matchesSearch lower st threat \<and> matchesVendor st threat \<and> matchesSeverity st threat
      \<and> matchesCWE st threat \<and> matchesDate parse parseInt now st threat)"

definition filtered ::
  "(string \<Rightarrow> string) \<Rightarrow> date_parser \<Rightarrow> (string \<Rightarrow> int option) \<Rightarrow> (nat \<Rightarrow> int)
     \<Rightarrow> app_state \<Rightarrow> threat list \<Rightarrow> threat list" where
  "filtered lower parse parseInt clock st threats =
     map snd (filter (\<lambda>(i, threat). filter_callback lower parse parseInt st (clock i) threat)
                (enumerate 0 threats))"

text \<open>
  The values the comparator compares: \<open>a[sortBy]\<close> is a string field, the \<open>cwes\<close>
  array (which \<open>>\<close> and \<open><\<close> turn into its elements joined by commas), or undefined
  for a name that is no field; for \<open>dateAdded\<close> and \<open>dueDate\<close> it is wrapped in a Date.
\<close>

datatype sort_value = VDate "int option" | VStr string | VUndefined

fun join_comma :: "string list \<Rightarrow> string" where
  "join_comma [] = []"
| "join_comma [x] = x"
| "join_comma (x # y # ys) = x @ '','' @ join_comma (y # ys)"

definition sort_field :: "date_parser \<Rightarrow> string \<Rightarrow> threat \<Rightarrow> sort_value" where
  "sort_field parse by threat =
     (if by = ''dateAdded'' then VDate (parse (dateAdded threat))
      else if by = ''dueDate'' then VDate (parse (dueDate threat))
      else if by = ''cveID'' then VStr (cveID threat)
      else if by = ''vendorProject'' then VStr (vendorProject threat)
      else if by = ''product'' then VStr (product threat)
      else if by = ''vulnerabilityName'' then VStr (vulnerabilityName threat)
      else if by = ''severity'' then VStr (severity threat)
      else if by = ''cwes'' then VStr (join_comma (cwes threat))
      else if by = ''shortDescription'' then VStr (shortDescription threat)
      else if by = ''knownRansomwareCampaignUse'' then VStr (knownRansomwareCampaignUse threat)
      else if by = ''requiredAction'' then VStr (requiredAction threat)
      else VUndefined)"

fun value_greater :: "sort_value \<Rightarrow> sort_value \<Rightarrow> bool" where
  "value_greater (VDate (Some a)) (VDate (Some b)) = (a > b)"
| "value_greater (VStr a) (VStr b) = (a > b)"
| "value_greater _ _ = False"

definition compare_threats :: "date_parser \<Rightarrow> app_state \<Rightarrow> threat \<Rightarrow> threat \<Rightarrow> int" where
  "compare_threats parse st a b =
     (let aValue = sort_field parse (sortBy st) a;
          bValue = sort_field parse (sortBy st) b
      in if sortOrder st = ''asc'' then (if value_greater aValue bValue then 1 else - 1)
         else (if value_greater bValue aValue then 1 else - 1))"

text \<open>
  \<open>filtered.sort(comparator)\<close>. The comparator above never returns 0, so it is no
  consistent ordering, and for such a comparator the language leaves the resulting
  order to the engine. The engine's procedure is therefore an argument, \<open>sorter\<close>;
  what is known of it is that it rearranges the array it is given.
\<close>

definition filteredThreats ::
  "((threat \<Rightarrow> threat \<Rightarrow> int) \<Rightarrow> threat list \<Rightarrow> threat list) \<Rightarrow> (string \<Rightarrow> string) \<Rightarrow> date_parser
     \<Rightarrow> (string \<Rightarrow> int option) \<Rightarrow> (nat \<Rightarrow> int) \<Rightarrow> app_state \<Rightarrow> threat list \<Rightarrow> threat list" where
  "filteredThreats sorter lower parse parseInt clock st threats =
     sorter (compare_threats parse st) (filtered lower parse parseInt clock st threats)"

text \<open>
  One procedure an engine may use, an insertion sort driven by the comparator; it
  serves as the engine's procedure where a concrete input is computed.
\<close>

fun insert_by :: "('a \<Rightarrow> 'a \<Rightarrow> int) \<Rightarrow> 'a \<Rightarrow> 'a list \<Rightarrow> 'a list" where
  "insert_by cmp x [] = [x]"
| "insert_by cmp x (y # ys) = (if cmp x y > 0 then y # insert_by cmp x ys else x # y # ys)"

definition insertion_sort :: "('a \<Rightarrow> 'a \<Rightarrow> int) \<Rightarrow> 'a list \<Rightarrow> 'a list" where
  "insertion_sort cmp xs = foldr (insert_by cmp) xs []"

section \<open>The collection engine\<close>

text \<open>
  The engine (source registry, cache store, collectors, orchestrator) is Python code of
  the repository that is not among the sources at hand; the documentation shows only
  its calls. Its definitions below follow the specification.
\<close>

subsection \<open>Source registry\<close>

datatype source_kind = Api | Scrape | Interactive

record source_descriptor =
  name :: string
  location :: string
  kind :: source_kind
  extraction_rules :: "(string \<times> string) list"
  auth_required :: bool

text \<open>
  Modelled from the spec: the registry table and the URL template of the fallback
  are missing. The registry is the configuration input, an association list from
  domain names to ordered source lists; \<open>search_url\<close> is the template that turns a
  domain name into a best-guess search URL.
\<close>

type_synonym registry = "(string \<times> source_descriptor list) list"

definition generic_source :: "(string \<Rightarrow> string) \<Rightarrow> string \<Rightarrow> source_descriptor" where
  "generic_source search_url domain_name =
     \<lparr>name = domain_name, location = search_url domain_name, kind = Scrape,
      extraction_rules = [], auth_required = False\<rparr>"

text \<open>
  Modelled from the spec: \<open>resolve(domain)\<close> of the missing Source Registry. A known
  domain gets its configured list, an unknown one the single synthetic descriptor.
\<close>

definition resolve :: "(string \<Rightarrow> string) \<Rightarrow> registry \<Rightarrow> string \<Rightarrow> source_descriptor list" where
  "resolve search_url reg domain_name =
     (case map_of reg domain_name of
        Some sources \<Rightarrow> sources
      | None \<Rightarrow> [generic_source search_url domain_name])"

subsection \<open>Cache store\<close>

text \<open>
  Modelled from the spec: the missing Cache Store. An entry holds its key, the payload
  and the time it was fetched; times and the TTL are integers in one unit. \<open>put\<close>
  overwrites, \<open>is_fresh\<close> is \<open>now - fetched_at < ttl\<close>, \<open>invalidate\<close> drops the keys that
  start with the prefix. Persistence to disk is outside the model.
\<close>

record 'p cache_entry =
  key :: string
  payload :: 'p
  fetched_at :: int

type_synonym 'p cache = "string \<rightharpoonup> 'p cache_entry"

definition get :: "'p cache \<Rightarrow> string \<Rightarrow> 'p cache_entry option" where
  "get c k = c k"

definition put :: "'p cache \<Rightarrow> int \<Rightarrow> string \<Rightarrow> 'p \<Rightarrow> 'p cache" where
  "put c now k p = c(k \<mapsto> \<lparr>key = k, payload = p, fetched_at = now\<rparr>)"

definition is_fresh :: "int \<Rightarrow> 'p cache_entry \<Rightarrow> int \<Rightarrow> bool" where
  "is_fresh now entry ttl = (now - fetched_at entry < ttl)"

definition invalidate :: "'p cache \<Rightarrow> string \<Rightarrow> 'p cache" where
  "invalidate c key_prefix = (\<lambda>k. if prefix key_prefix k then None else c k)"

subsection \<open>Interactive collector: the scroll loop\<close>

datatype stage = NotStarted | LoggingIn | Authenticated | Extracting | Done | Failed

record session_state =
  stage :: stage
  items_extracted :: nat
  scroll_count :: nat

text \<open>
  Modelled from the spec: the scroll-and-extract loop of the missing Interactive
  Collector. \<open>new_items k\<close> is the number of new items, after de-duplication, that
  scroll number \<open>k\<close> makes visible; \<open>timed_out k\<close> tells whether the wall-clock budget
  has run out when the loop is about to make scroll number \<open>k\<close>; \<open>idle\<close> counts the
  scrolls in a row that produced nothing. The loop stops when \<open>max_items\<close> is
  reached, when \<open>max_scrolls\<close> scrolls in a row produced no new item, or on timeout;
  it never keeps more than \<open>max_items\<close> items.
\<close>

function scroll_loop ::
  "nat \<Rightarrow> nat \<Rightarrow> (nat \<Rightarrow> nat) \<Rightarrow> (nat \<Rightarrow> bool) \<Rightarrow> nat \<Rightarrow> session_state \<Rightarrow> session_state" where
  "scroll_loop max_items max_scrolls new_items timed_out idle s =
     (if max_items \<le> items_extracted s \<or> max_scrolls \<le> idle
         \<or> timed_out (scroll_count s)
      then s\<lparr>stage := Done\<rparr>
      else
        (let n = min (new_items (scroll_count s)) (max_items - items_extracted s)
         in scroll_loop max_items max_scrolls new_items timed_out
              (if n = 0 then idle + 1 else 0)
              (s\<lparr>items_extracted := items_extracted s + n,
                 scroll_count := scroll_count s + 1\<rparr>)))"
  by pat_completeness auto
termination
  by (relation "measures
        [\<lambda>(max_items, max_scrolls, new_items, timed_out, idle, s). max_items - items_extracted s,
         \<lambda>(max_items, max_scrolls, new_items, timed_out, idle, s). max_scrolls - idle]")
     (auto simp: Let_def min_def not_le split: if_splits)

declare scroll_loop.simps [simp del]

definition extracting :: session_state where
  "extracting = \<lparr>stage = Extracting, items_extracted = 0, scroll_count = 0\<rparr>"

subsection \<open>Orchestrator\<close>

text \<open>
  Modelled from the spec: the data model of the missing engine. \<open>item\<close> is the spec's
  Record (one unit of collected intelligence); a CollectionResult carries the merged
  records, the two source counters, the facets and the \<open>degraded\<close> flag.
\<close>

record item =
  source_name :: string
  collected_at :: int
  domain :: string
  item_fields :: "(string \<times> string) list"

record collection_result =
  result_domain :: string
  result_location :: string
  result_collected_at :: int
  records :: "item list"
  sources_attempted :: nat
  sources_succeeded :: nat
  available_filters :: "(string \<times> string list) list"
  degraded :: bool

text \<open>
  Modelled from the spec: what one source yields. A collector returns its records or
  an error with a reason; an interactive source is skipped when no credentials were
  supplied. The two collectors stand for the network and the browser session and are
  fields of the engine, next to its configuration.
\<close>

datatype reason = Timeout | Unreachable | LoginTimeout | LoginRejected | SessionDropped

datatype outcome = Skipped | Errored reason | Succeeded "item list"

type_synonym credentials = "string \<times> string"

record engine =
  url_template :: "string \<Rightarrow> string"
  source_registry :: registry
  cache_ttl :: int
  fetch_collect ::
    "source_descriptor \<Rightarrow> string \<Rightarrow> (string \<times> string) list \<Rightarrow> reason + item list"
  interactive_collect ::
    "source_descriptor \<Rightarrow> credentials \<Rightarrow> string \<Rightarrow> (string \<times> string) list \<Rightarrow> reason + item list"

definition to_outcome :: "reason + item list \<Rightarrow> outcome" where
  "to_outcome x = (case x of Inl e \<Rightarrow> Errored e | Inr items \<Rightarrow> Succeeded items)"

definition dispatch ::
  "engine \<Rightarrow> credentials option \<Rightarrow> string \<Rightarrow> (string \<times> string) list \<Rightarrow> source_descriptor
     \<Rightarrow> outcome" where
  "dispatch eng creds loc flt src =
     (case kind src of
        Interactive \<Rightarrow>
          (case creds of
             None \<Rightarrow> Skipped
           | Some c \<Rightarrow> to_outcome (interactive_collect eng src c loc flt))
      | _ \<Rightarrow> to_outcome (fetch_collect eng src loc flt))"

text \<open>
  Modelled from the spec: step 4 of the orchestrator. The records of a source are
  appended in source order; a source that ran is counted as attempted, one that
  returned records (possibly none) also as succeeded; a skipped source is not counted.
\<close>

fun merge :: "collection_result \<Rightarrow> outcome \<Rightarrow> collection_result" where
  "merge r Skipped = r"
| "merge r (Errored e) = r\<lparr>sources_attempted := sources_attempted r + 1\<rparr>"
| "merge r (Succeeded items) =
     r\<lparr>records := records r @ items,
       sources_attempted := sources_attempted r + 1,
       sources_succeeded := sources_succeeded r + 1\<rparr>"

text \<open>
  Modelled from the spec: step 5, the distinct values of the facet-worthy fields; a
  facet without a value is left out.
\<close>

definition facet_fields :: "string list" where
  "facet_fields = [''vendor'', ''category'', ''severity'']"

definition compute_filters :: "item list \<Rightarrow> (string \<times> string list) list" where
  "compute_filters items =
     filter (\<lambda>facet. snd facet \<noteq> [])
       (map (\<lambda>f. (f, new_Set (List.map_filter (\<lambda>r. map_of (item_fields r) f) items))) facet_fields)"

text \<open>
  Modelled from the spec: step 7. The flag is set when every source errored; the
  sources meant are those that were dispatched, and there is at least one.
\<close>

fun is_error :: "outcome \<Rightarrow> bool" where
  "is_error (Errored e) = True"
| "is_error _ = False"

definition every_source_errored :: "outcome list \<Rightarrow> bool" where
  "every_source_errored outcomes =
     (let dispatched = filter (\<lambda>out. out \<noteq> Skipped) outcomes
      in dispatched \<noteq> [] \<and> list_all is_error dispatched)"

text \<open>
  Modelled from the spec: the cache key, built from domain, location and a
  fingerprint of the filters, so that it starts with the domain.
\<close>

definition fingerprint :: "(string \<times> string) list \<Rightarrow> string" where
  "fingerprint flt = concat (map (\<lambda>(k, v). k @ ''='' @ v @ '';'') flt)"

definition cache_key :: "string \<Rightarrow> string \<Rightarrow> (string \<times> string) list \<Rightarrow> string" where
  "cache_key domain_name loc flt = domain_name @ '':'' @ loc @ '':'' @ fingerprint flt"

text \<open>
  Modelled from the spec: steps 3 to 5 and 7 of \<open>collect_domain_data\<close>, the
  collection proper.
\<close>

definition collect_sources ::
  "engine \<Rightarrow> credentials option \<Rightarrow> int \<Rightarrow> string \<Rightarrow> string \<Rightarrow> (string \<times> string) list
     \<Rightarrow> collection_result" where
  "collect_sources eng creds now domain_name loc flt =
     (let sources = resolve (url_template eng) (source_registry eng) domain_name;
          outcomes = map (dispatch eng creds loc flt) sources;
          merged = foldl merge
            \<lparr>result_domain = domain_name, result_location = loc, result_collected_at = now,
             records = [], sources_attempted = 0, sources_succeeded = 0,
             available_filters = [], degraded = False\<rparr> outcomes
      in merged\<lparr>available_filters := compute_filters (records merged),
                degraded := every_source_errored outcomes\<rparr>)"

text \<open>
  Modelled from the spec: \<open>collect_domain_data\<close> of the missing orchestrator. A fresh
  cache hit is returned as it is; otherwise the sources are collected and the result
  is written to the cache. The function returns the result and the new cache.
\<close>

definition collect_domain_data ::
  "engine \<Rightarrow> credentials option \<Rightarrow> int \<Rightarrow> collection_result cache \<Rightarrow> string \<Rightarrow> string
     \<Rightarrow> (string \<times> string) list \<Rightarrow> bool \<Rightarrow> collection_result \<times> collection_result cache" where
  "collect_domain_data eng creds now c domain_name loc flt use_cache =
     (let k = cache_key domain_name loc flt;
          hit = (if use_cache then
                   (case get c k of
                      Some entry \<Rightarrow>
                          if is_fresh now entry (cache_ttl eng) then Some (payload entry) else None
                    | None \<Rightarrow> None)
                 else None)
      in case hit of
           Some cached \<Rightarrow> (cached, c)
         | None \<Rightarrow>
             (let result = collect_sources eng creds now domain_name loc flt
              in (result, put c now k result)))"

text \<open>
  The caches the engine can be in: empty at the start, then changed only by
  collections and invalidations.
\<close>

inductive reachable :: "collection_result cache \<Rightarrow> bool" where
  start: "reachable Map.empty"
| collected: "reachable c \<Longrightarrow>
     reachable (snd (collect_domain_data eng creds now c domain_name loc flt use_cache))"
| invalidated: "reachable c \<Longrightarrow> reachable (invalidate c key_prefix)"

text \<open>
  The cybersecurity scenarios of the specification's section 8, as concrete engines:
  two API sources; in the first engine one source times out and the other returns
  three records, in the second both fail.
\<close>

definition two_sources :: registry where
  "two_sources =
     [(''cybersecurity'',
       [\<lparr>name = ''CISA KEV'', location = ''https://www.cisa.gov/kev'', kind = Api,
          extraction_rules = [], auth_required = False\<rparr>,
        \<lparr>name = ''FBI IC3'', location = ''https://www.ic3.gov'', kind = Api,
          extraction_rules = [], auth_required = False\<rparr>])]"

definition three_items :: "item list" where
  "three_items =
     map (\<lambda>sev. \<lparr>source_name = ''FBI IC3'', collected_at = 0, domain
         = ''cybersecurity'',
                  item_fields = [(''severity'', sev)]\<rparr>) [''High'', ''Low'', ''High'']"

definition one_times_out :: engine where
  "one_times_out =
     \<lparr>url_template = (\<lambda>d. ''https://www.google.com/search?q='' @ d),
      source_registry = two_sources, cache_ttl = 86400,
      fetch_collect = (\<lambda>src loc flt. if name src = ''CISA KEV'' then Inl Timeout
                                       else Inr three_items),
      interactive_collect = (\<lambda>src creds loc flt. Inl LoginRejected)\<rparr>"

definition both_fail :: engine where
  "both_fail =
     \<lparr>url_template = (\<lambda>d. ''https://www.google.com/search?q='' @ d),
      source_registry = two_sources, cache_ttl = 86400,
      fetch_collect = (\<lambda>src loc flt. Inl Unreachable),
      interactive_collect = (\<lambda>src creds loc flt. Inl LoginRejected)\<rparr>"

section \<open>Auxiliary notions for the proofs\<close>

text \<open>
  A counter object: distinct keys, every value a number. \<open>num_of\<close> reads a counter
  (an absent key counts as 0) and \<open>total_count\<close> adds up all counters.
\<close>

definition numeric :: "(string \<times> prim) list \<Rightarrow> bool" where
  "numeric obj = (distinct (map fst obj)
      \<and> (\<forall>v \<in> snd ` set obj. \<exists>n. v = PNum n))"

definition num_of :: "prim option \<Rightarrow> nat" where
  "num_of x = (case x of Some (PNum n) \<Rightarrow> n | _ \<Rightarrow> 0)"

definition total_count :: "(string \<times> prim) list \<Rightarrow> nat" where
  "total_count obj = sum_list (map (\<lambda>(k, v). num_of (Some v)) obj)"

section \<open>Properties\<close>

subsection \<open>The helpers of App.jsx and of api.js agree\<close>

text \<open>
  C10. The helper functions getSeverityColor, getSeverityBadgeVariant, getDaysUntilDue
  and getUrgencyColor defined inside App.jsx return, for every severity string, every
  due-date string (under the same date parser and the same clock reading) and every
  days-until-due number, the same output as the functions of those names exported
  from api.js.
\<close>

theorem helpers_agree:
  "App_getSeverityColor sev = api_getSeverityColor sev
   \<and> App_getSeverityBadgeVariant sev = api_getSeverityBadgeVariant sev
   \<and> App_getDaysUntilDue parse now due_date = api_getDaysUntilDue parse now due_date
   \<and> App_getUrgencyColor days = api_getUrgencyColor days"
  by (simp add: App_getSeverityColor_def App_getSeverityBadgeVariant_def
      api_getSeverityColor_def api_getSeverityBadgeVariant_def
      App_getDaysUntilDue_def api_getDaysUntilDue_def
      App_getUrgencyColor_def api_getUrgencyColor_def)

subsection \<open>fetchThreats\<close>

lemma str_includes_sublist: "str_includes s t \<longleftrightarrow> sublist t s"
  by (induction s) (auto simp: sublist_Cons_right)









subsection \<open>Facet lists\<close>

lemma set_foldl_Set_add: "set (foldl Set_add acc xs) = set acc \<union> set xs"
  by (induction xs arbitrary: acc) (auto simp: Set_add_def)

lemma distinct_foldl_Set_add: "distinct acc \<Longrightarrow> distinct (foldl Set_add acc xs)"
  by (induction xs arbitrary: acc) (auto simp: Set_add_def)

lemma set_new_Set: "set (new_Set xs) = set xs"
  by (simp add: new_Set_def set_foldl_Set_add)

lemma distinct_new_Set: "distinct (new_Set xs)"
  by (simp add: new_Set_def distinct_foldl_Set_add)

lemma strict_sorted_sort_new_Set: "sorted_wrt (<) (sort (new_Set xs))"
  by (simp add: strict_sorted_iff distinct_new_Set)

text \<open>
  C3. For every list of threats, uniqueVendors holds each vendorProject value of the
  list exactly once and nothing else, in strictly ascending string order; uniqueCWEs
  holds exactly the CWE identifiers occurring in the cwes arrays of the threats, each
  once, in strictly ascending string order.
\<close>

theorem unique_facets:
  "distinct (uniqueVendors threats)
   \<and> set (uniqueVendors threats) = vendorProject ` set threats
   \<and> sorted_wrt (<) (uniqueVendors threats)
   \<and> distinct (uniqueCWEs threats)
   \<and> set (uniqueCWEs threats) = (\<Union>t \<in> set threats. set (cwes t))
   \<and> sorted_wrt (<) (uniqueCWEs threats)"
  by (simp add: uniqueVendors_def uniqueCWEs_def set_new_Set distinct_new_Set
      strict_sorted_sort_new_Set)

subsection \<open>Severity statistics\<close>

lemma map_of_set_own: "map_of (set_own obj k v) = (map_of obj)(k \<mapsto> v)"
  by (induction obj k v rule: set_own.induct) auto

lemma keys_set_own: "fst ` set (set_own obj k v) = insert k (fst ` set obj)"
  by (induction obj k v rule: set_own.induct) auto

lemma vals_set_own: "snd ` set (set_own obj k v) \<subseteq> insert v (snd ` set obj)"
  by (induction obj k v rule: set_own.induct) auto

lemma distinct_set_own: "distinct (map fst obj) \<Longrightarrow> distinct (map fst (set_own obj k v))"
  by (induction obj k v rule: set_own.induct) (auto simp: keys_set_own)

lemma total_set_own:
  "distinct (map fst obj) \<Longrightarrow>
   total_count (set_own obj k v) + num_of (map_of obj k) = total_count obj + num_of (Some v)"
proof (induction obj k v rule: set_own.induct)
  case (1 k v)
  then show ?case by (simp add: total_count_def num_of_def)
next
  case (2 k' v' obj k v)
  show ?case
  proof (cases "k' = k")
    case True
    then show ?thesis by (simp add: total_count_def)
  next
    case False
    then show ?thesis using 2 by (simp add: total_count_def)
  qed
qed

lemma count_threat_plain:
  assumes "numeric obj" and "Object_prototype (severity t) = Undefined"
  shows "count_threat obj t
      = set_own obj (severity t) (PNum (Suc (num_of (map_of obj (severity t)))))"
proof -
  have np: "severity t \<noteq> ''__proto__''"
    using assms(2) by (auto simp: Object_prototype_def)
  show ?thesis
  proof (cases "map_of obj (severity t)")
    case None
    then show ?thesis using assms(2) np
      by (simp add: count_threat_def get_prop_def set_prop_def num_of_def)
  next
    case (Some v)
    then have "v \<in> snd ` set obj" by (force dest: map_of_SomeD)
    then obtain n where "v = PNum n" using assms(1) by (auto simp: numeric_def)
    then show ?thesis using Some np
      by (simp add: count_threat_def get_prop_def set_prop_def num_of_def)
  qed
qed

lemma numeric_count_threat:
  assumes "numeric obj" and "Object_prototype (severity t) = Undefined"
  shows "numeric (count_threat obj t)"
  unfolding count_threat_plain[OF assms] using assms(1) vals_set_own[of obj "severity t"]
  by (fastforce simp: numeric_def distinct_set_own)

lemma foldl_count_plain:
  assumes "numeric obj" and "\<forall>t \<in> set ths. Object_prototype (severity t) = Undefined"
  shows "numeric (foldl count_threat obj ths)
     \<and> (\<forall>sev. num_of (map_of (foldl count_threat obj ths) sev)
            = num_of (map_of obj sev) + length (filter (\<lambda>t. severity t = sev) ths))
     \<and> fst ` set (foldl count_threat obj ths) = fst ` set obj \<union> severity ` set ths
     \<and> total_count (foldl count_threat obj ths) = total_count obj + length ths"
  using assms
proof (induction ths arbitrary: obj)
  case Nil
  then show ?case by simp
next
  case (Cons t ths)
  have pl: "Object_prototype (severity t) = Undefined" using Cons.prems by simp
  note eq = count_threat_plain[OF Cons.prems(1) pl]
  have n': "numeric (count_threat obj t)" by (rule numeric_count_threat[OF Cons.prems(1) pl])
  have rest: "\<forall>t \<in> set ths. Object_prototype (severity t)
      = Undefined" using Cons.prems by simp
  note IH = Cons.IH[OF n' rest]
  have m: "\<And>sev. num_of (map_of (count_threat obj t) sev)
            = num_of (map_of obj sev) + (if severity t = sev then 1 else 0)"
    unfolding eq by (simp add: map_of_set_own num_of_def)
  have k: "fst ` set (count_threat obj t) = insert (severity t) (fst ` set obj)"
    unfolding eq by (simp add: keys_set_own)
  have d: "distinct (map fst obj)" using Cons.prems(1) by (simp add: numeric_def)
  have tc: "total_count (count_threat obj t) = total_count obj + 1"
    unfolding eq using total_set_own[OF d, of "severity t" "PNum (Suc (num_of (map_of obj (severity t))))"]
    by (simp add: num_of_def)
  show ?case using IH m k tc by (auto simp: numeric_def)
qed

lemma mset_Object_entries: "mset (Object_entries obj) = mset obj"
  by (simp add: Object_entries_def)

lemma severityStats_plain:
  assumes "\<forall>t \<in> set threats. Object_prototype (severity t) = Undefined"
  shows "distinct (map fst (severityStats threats))"
    and "fst ` set (severityStats threats)
           = {''Critical'', ''High'', ''Medium'', ''Low''} \<union> severity ` set threats"
    and "(sev, v) \<in> set (severityStats threats) \<Longrightarrow>
           v = PNum (length (filter (\<lambda>t. severity t = sev) threats))"
    and "total_count (severityStats threats) = length threats"
proof -
  let ?init = "[(''Critical'', PNum 0), (''High'', PNum 0), (''Medium'', PNum 0), (''Low'', PNum 0)]"
  define obj where "obj = foldl count_threat ?init threats"
  have init: "numeric ?init" by (simp add: numeric_def)
  note f = foldl_count_plain[OF init assms, folded obj_def]
  from f have f1: "numeric obj" by blast
  from f have f2: "\<And>sev. num_of (map_of obj sev)
       = num_of (map_of ?init sev) + length (filter (\<lambda>t. severity t
           = sev) threats)" by blast
  from f have f3: "fst ` set obj = fst ` set ?init \<union> severity ` set threats" by blast
  from f have f4: "total_count obj = total_count ?init + length threats" by blast
  have ms: "mset (severityStats threats) = mset obj"
    by (simp add: severityStats_def mset_Object_entries obj_def)
  have st: "set (severityStats threats) = set obj"
    using ms by (rule mset_eq_setD)
  have "mset (map fst (severityStats threats)) = mset (map fst obj)"
    using ms by simp
  then show d: "distinct (map fst (severityStats threats))"
    using f1 mset_eq_imp_distinct_iff unfolding numeric_def by blast
  show "fst ` set (severityStats threats)
           = {''Critical'', ''High'', ''Medium'', ''Low''} \<union> severity ` set threats"
    unfolding st f3 by simp
  show "total_count (severityStats threats) = length threats"
  proof -
    have "mset (map (\<lambda>(k, v). num_of (Some v)) (severityStats threats))
        = mset (map (\<lambda>(k, v). num_of (Some v)) obj)"
      using ms by simp
    then have "sum_mset (mset (map (\<lambda>(k, v). num_of (Some v)) (severityStats threats)))
        = sum_mset (mset (map (\<lambda>(k, v). num_of (Some v)) obj))"
      by (rule arg_cong)
    then have "total_count (severityStats threats) = total_count obj"
      unfolding total_count_def sum_mset_sum_list .
    also have "\<dots> = length threats"
      unfolding f4 by (simp add: total_count_def num_of_def)
    finally show ?thesis .
  qed
  show "v = PNum (length (filter (\<lambda>t. severity t = sev) threats))"
    if "(sev, v) \<in> set (severityStats threats)"
  proof -
    have in_obj: "(sev, v) \<in> set obj" using that st by simp
    have dobj: "distinct (map fst obj)" using f1 by (simp add: numeric_def)
    have m: "map_of obj sev = Some v" using in_obj dobj by simp
    have "v \<in> snd ` set obj" using in_obj by force
    then obtain n where n: "v = PNum n" using f1 unfolding numeric_def by blast
    have i0: "num_of (map_of ?init sev) = 0" by (simp add: num_of_def)
    show ?thesis using f2[of sev] unfolding i0 m n by (simp add: num_of_def)
  qed
qed


lemma severities_plain: "sev \<in> set severities \<Longrightarrow> Object_prototype sev
    = Undefined"
  by (auto simp: severities_def Object_prototype_def)

lemma Object_prototype_Undefined_iff:
  "Object_prototype k = Undefined \<longleftrightarrow>
     k \<notin> set [''__proto__'', ''constructor'', ''toString'', ''toLocaleString'', ''valueOf'',
          ''hasOwnProperty'', ''isPrototypeOf'', ''propertyIsEnumerable'', ''__defineGetter__'',
          ''__defineSetter__'', ''__lookupGetter__'', ''__lookupSetter__'']"
  by (simp add: Object_prototype_def)

text \<open>
  C2. For every list of threats the component can hold, severityStats maps each
  severity to the number of threats of the list that have it, has an entry for each of
  Critical, High, Medium and Low (with count 0 when no threat has that severity), and
  its counts add up to the number of threats. The severities of the component's data
  are Critical, High, Medium and Low; the statement holds for every list in which no
  severity is the name of a property that the counter object inherits from
  \<open>Object.prototype\<close>.
\<close>

theorem severityStats_counts:
  assumes "list_all (\<lambda>t. severity t \<notin> set [''__proto__'', ''constructor'', ''toString'', ''toLocaleString'', ''valueOf'',
          ''hasOwnProperty'', ''isPrototypeOf'', ''propertyIsEnumerable'', ''__defineGetter__'',
          ''__defineSetter__'', ''__lookupGetter__'', ''__lookupSetter__'']) threats"
  shows "distinct (map fst (severityStats threats))
   \<and> fst ` set (severityStats threats)
       = {''Critical'', ''High'', ''Medium'', ''Low''} \<union> severity ` set threats
   \<and> (\<forall>sev v. (sev, v) \<in> set (severityStats threats)
         \<longrightarrow> v = PNum (length (filter (\<lambda>t. severity t = sev) threats)))
   \<and> sum_list (map (\<lambda>(sev, v). case v of PNum n \<Rightarrow> n | PStr s \<Rightarrow> 0) (severityStats threats))
       = length threats"
proof -
  have plain: "\<forall>t \<in> set threats. Object_prototype (severity t) = Undefined"
    using assms unfolding list_all_iff Object_prototype_Undefined_iff .
  note p = severityStats_plain[OF plain]
  have v: "\<forall>sev v. (sev, v) \<in> set (severityStats threats)
         \<longrightarrow> v = PNum (length (filter (\<lambda>t. severity t = sev) threats))"
    using p(3) by blast
  have "(\<lambda>(sev, v). case v of PNum n \<Rightarrow> n | PStr s \<Rightarrow> 0)
      = (\<lambda>(k :: string, v). num_of (Some v))"
    by (auto simp: num_of_def fun_eq_iff split: prim.splits)
  then have total: "sum_list (map (\<lambda>(sev, v). case v of PNum n \<Rightarrow> n | PStr s \<Rightarrow> 0)
      (severityStats threats)) = length threats"
    using p(4) by (simp add: total_count_def)
  show ?thesis by (intro conjI p(1) p(2) v total)
qed

theorem severityStats_counts_witness:
  "list_all (\<lambda>t. severity t \<notin> set [''__proto__'', ''constructor'', ''toString'', ''toLocaleString'', ''valueOf'',
          ''hasOwnProperty'', ''isPrototypeOf'', ''propertyIsEnumerable'', ''__defineGetter__'',
          ''__defineSetter__'', ''__lookupGetter__'', ''__lookupSetter__'']) mockThreats
   \<and> set (map severity mockThreats) \<subseteq> set severities
   \<and> severityStats mockThreats
       = [(''Critical'', PNum 2), (''High'', PNum 1), (''Medium'', PNum 0), (''Low'', PNum 0)]
   \<and> sum_list (map (\<lambda>(sev, v). case v of PNum n \<Rightarrow> n | PStr s \<Rightarrow> 0) (severityStats mockThreats))
       = length mockThreats"
proof -
  have h: "list_all (\<lambda>t. severity t \<notin> set [''__proto__'', ''constructor'', ''toString'', ''toLocaleString'', ''valueOf'',
          ''hasOwnProperty'', ''isPrototypeOf'', ''propertyIsEnumerable'', ''__defineGetter__'',
          ''__defineSetter__'', ''__lookupGetter__'', ''__lookupSetter__'']) mockThreats"
    by (simp add: mockThreats_def)
  have s: "set (map severity mockThreats) \<subseteq> set severities"
    by (simp add: mockThreats_def severities_def)
  have e: "severityStats mockThreats
       = [(''Critical'', PNum 2), (''High'', PNum 1), (''Medium'', PNum 0), (''Low'', PNum 0)]"
    by (simp add: severityStats_def count_threat_def get_prop_def set_prop_def
        Object_prototype_def Object_entries_def is_array_index_def is_digit_def mockThreats_def
        numeral_2_eq_2)
  from severityStats_counts[OF h]
  have t: "sum_list (map (\<lambda>(sev, v). case v of PNum n \<Rightarrow> n | PStr s \<Rightarrow> 0)
      (severityStats mockThreats)) = length mockThreats"
    by blast
  show ?thesis by (intro conjI h s e t)
qed

text \<open>
  Outside these lists the counter object behaves differently: under the key
  \<open>__proto__\<close> the assignment is ignored and the threat is counted nowhere.
\<close>

lemma severityStats_at_inherited_key:
  "severityStats
     [\<lparr>cveID = ''CVE-2025-20362'', vendorProject = ''Cisco'',
       product = ''Secure Firewall Adaptive Security Appliance'',
       vulnerabilityName = ''Cisco Secure Firewall Missing Authorization Vulnerability'',
       dateAdded = ''2025-09-25'', dueDate = ''2025-09-26'', severity = ''__proto__'',
       cwes = [''CWE-862''], shortDescription = ''Missing authorization vulnerability'',
       knownRansomwareCampaignUse = ''Unknown'',
       requiredAction = ''Apply mitigations per vendor instructions''\<rparr>]
   = [(''Critical'', PNum 0), (''High'', PNum 0), (''Medium'', PNum 0), (''Low'', PNum 0)]"
  by (simp add: severityStats_def count_threat_def get_prop_def set_prop_def
      Object_prototype_def Object_entries_def is_array_index_def is_digit_def)

subsection \<open>Filtering\<close>

lemma mset_insert_by: "mset (insert_by cmp x ys) = add_mset x (mset ys)"
  by (induction ys) auto

lemma mset_insertion_sort: "mset (insertion_sort cmp xs) = mset xs"
  unfolding insertion_sort_def by (induction xs) (auto simp: mset_insert_by)

lemma enumerate_nth: "enumerate 0 xs = map (\<lambda>i. (i, xs ! i)) [0..<length xs]"
  by (rule nth_equalityI) (auto simp: nth_enumerate_eq)

lemma filtered_by_index:
  "filtered lower parse parseInt clock st threats
     = map (\<lambda>i. threats ! i)
         (filter (\<lambda>i. filter_callback lower parse parseInt st (clock i) (threats ! i))
            [0..<length threats])"
  unfolding filtered_def enumerate_nth by (simp add: filter_map comp_def)

lemma matchesDate_iff:
  "matchesDate parse parseInt now st threat \<longleftrightarrow>
     dateRange st = ''all''
     \<or> (\<exists>added days. parse (dateAdded threat) = Some added
            \<and> parseInt (dateRange st) = Some days
            \<and> \<bar>now - days * 86400000\<bar> \<le> 8640000000000000
            \<and> now - days * 86400000 \<le> added)"
proof (cases "dateRange st = ''all''")
  case True
  then show ?thesis by (simp add: matchesDate_def)
next
  case False
  show ?thesis
  proof (cases "parse (dateAdded threat)")
    case None
    then show ?thesis using False
      by (simp add: matchesDate_def Let_def split: option.splits)
  next
    case (Some added)
    show ?thesis
    proof (cases "parseInt (dateRange st)")
      case None
      then show ?thesis using False Some by (simp add: matchesDate_def Let_def)
    next
      case days: (Some days)
      show ?thesis using False Some days
        by (simp add: matchesDate_def Let_def time_clip_def mult.commute)
    qed
  qed
qed

lemma filter_callback_iff:
  "filter_callback lower parse parseInt st now threat \<longleftrightarrow>
     (searchTerm st = []
        \<or> sublist (lower (searchTerm st)) (lower (cveID threat))
        \<or> sublist (lower (searchTerm st)) (lower (vendorProject threat))
        \<or> sublist (lower (searchTerm st)) (lower (product threat))
        \<or> sublist (lower (searchTerm st)) (lower (vulnerabilityName threat)))
     \<and> (selectedVendor st = ''all'' \<or> vendorProject threat = selectedVendor st)
     \<and> (selectedSeverity st = ''all'' \<or> severity threat = selectedSeverity st)
     \<and> (selectedCWE st = ''all'' \<or> selectedCWE st \<in> set (cwes threat))
     \<and> (dateRange st = ''all''
          \<or> (\<exists>added days. parse (dateAdded threat) = Some added
                \<and> parseInt (dateRange st) = Some days
                \<and> \<bar>now - days * 86400000\<bar> \<le> 8640000000000000
                \<and> now - days * 86400000 \<le> added))"
  unfolding filter_callback_def matchesDate_iff
  by (simp add: matchesSearch_def matchesVendor_def matchesSeverity_def matchesCWE_def
      str_includes_sublist)

text \<open>
  C8. Filtering is conjunctive: filteredThreats holds, in the order the sort gives,
  exactly the threats (position by position, so with their multiplicity) for which
  all five tests succeed at once: the search term is empty or its lower-cased text
  occurs in the lower-cased cveID, vendorProject, product or vulnerabilityName; the
  selected vendor is \<open>all\<close> or is the vendorProject; the selected severity is \<open>all\<close> or
  is the severity; the selected CWE is \<open>all\<close> or is among the cwes; the date range is
  \<open>all\<close> or the date added is a valid date not before the valid cutoff, the clock
  reading less the parsed number of days. With an empty search term and every
  selector at \<open>all\<close>, filteredThreats is a permutation of the whole list. The sort is
  any procedure that rearranges its input.
\<close>

theorem filteredThreats_conjunctive:
  assumes "\<forall>xs. mset (sorter (compare_threats parse st) xs) = mset xs"
  shows "mset (filteredThreats sorter lower parse parseInt clock st threats)
     = mset (map (\<lambda>i. threats ! i)
         (filter (\<lambda>i.
            (searchTerm st = []
               \<or> sublist (lower (searchTerm st)) (lower (cveID (threats ! i)))
               \<or> sublist (lower (searchTerm st)) (lower (vendorProject (threats ! i)))
               \<or> sublist (lower (searchTerm st)) (lower (product (threats ! i)))
               \<or> sublist (lower (searchTerm st)) (lower (vulnerabilityName (threats ! i))))
            \<and> (selectedVendor st = ''all'' \<or> vendorProject (threats ! i)
                = selectedVendor st)
            \<and> (selectedSeverity st = ''all'' \<or> severity (threats ! i)
                = selectedSeverity st)
            \<and> (selectedCWE st = ''all'' \<or> selectedCWE st \<in> set (cwes (threats ! i)))
            \<and> (dateRange st = ''all''
                 \<or> (\<exists>added days. parse (dateAdded (threats ! i)) = Some added
                       \<and> parseInt (dateRange st) = Some days
                       \<and> \<bar>clock i - days * 86400000\<bar> \<le> 8640000000000000
                       \<and> clock i - days * 86400000 \<le> added)))
            [0..<length threats]))
   \<and> (searchTerm st = [] \<and> selectedVendor st = ''all'' \<and> selectedSeverity st
       = ''all''
        \<and> selectedCWE st = ''all'' \<and> dateRange st = ''all''
        \<longrightarrow> mset (filteredThreats sorter lower parse parseInt clock st threats)
            = mset threats)"
proof -
  have perm: "mset (filteredThreats sorter lower parse parseInt clock st threats)
      = mset (filtered lower parse parseInt clock st threats)"
    using assms by (simp add: filteredThreats_def)
  have all: "filtered lower parse parseInt clock st threats = threats"
    if "searchTerm st = []" "selectedVendor st = ''all''" "selectedSeverity st = ''all''"
      "selectedCWE st = ''all''" "dateRange st = ''all''"
    unfolding filtered_by_index filter_callback_iff using that by (simp add: map_nth)
  show ?thesis
    unfolding perm using all by (simp add: filtered_by_index filter_callback_iff)
qed

lemma selected_positions:
  "filter (\<lambda>i. filter_callback ascii_toLowerCase
       (\<lambda>s. if s = ''2025-09-25'' then Some 1758758400000 else if s
           = ''2025-09-23'' then Some 1758585600000 else None)
       (\<lambda>s. if s = ''7'' then Some 7 else None)
       \<lparr>searchTerm = ''cisco SECURE'', selectedVendor = ''Cisco'', selectedSeverity
           = ''Critical'', selectedCWE = ''CWE-862'', dateRange = ''7'', sortBy
               = ''dueDate'', sortOrder = ''asc''\<rparr>
       ((\<lambda>i. 1759320000000 + int i) i) (mockThreats ! i)) [0..<length mockThreats] = [0]"
  by code_simp

theorem filteredThreats_conjunctive_witness:
  "(\<forall>xs. mset (insertion_sort (compare_threats
       (\<lambda>s. if s = ''2025-09-25'' then Some 1758758400000 else if s
           = ''2025-09-23'' then Some 1758585600000 else None)
       \<lparr>searchTerm = ''cisco SECURE'', selectedVendor = ''Cisco'', selectedSeverity
           = ''Critical'', selectedCWE = ''CWE-862'', dateRange = ''7'', sortBy
               = ''dueDate'', sortOrder = ''asc''\<rparr>) xs) = mset xs)
   \<and> mset (filteredThreats insertion_sort ascii_toLowerCase
       (\<lambda>s. if s = ''2025-09-25'' then Some 1758758400000 else if s
           = ''2025-09-23'' then Some 1758585600000 else None)
       (\<lambda>s. if s = ''7'' then Some 7 else None)
       (\<lambda>i. 1759320000000 + int i)
       \<lparr>searchTerm = ''cisco SECURE'', selectedVendor = ''Cisco'', selectedSeverity
           = ''Critical'', selectedCWE = ''CWE-862'', dateRange = ''7'', sortBy
               = ''dueDate'', sortOrder = ''asc''\<rparr>
       mockThreats) = mset [mockThreats ! 0]
   \<and> (\<forall>xs. mset (insertion_sort (compare_threats
       (\<lambda>s. if s = ''2025-09-25'' then Some 1758758400000 else if s
           = ''2025-09-23'' then Some 1758585600000 else None)
       initial_state) xs) = mset xs)
   \<and> searchTerm initial_state = [] \<and> selectedVendor initial_state = ''all''
   \<and> selectedSeverity initial_state = ''all'' \<and> selectedCWE initial_state = ''all''
   \<and> dateRange initial_state = ''all''
   \<and> mset (filteredThreats insertion_sort ascii_toLowerCase
       (\<lambda>s. if s = ''2025-09-25'' then Some 1758758400000 else if s
           = ''2025-09-23'' then Some 1758585600000 else None)
       (\<lambda>s. if s = ''7'' then Some 7 else None)
       (\<lambda>i. 1759320000000 + int i)
       initial_state mockThreats) = mset mockThreats"
proof -
  let ?parse = "(\<lambda>s. if s = ''2025-09-25'' then Some 1758758400000 else if s
      = ''2025-09-23'' then Some 1758585600000 else None)"
  let ?parseInt = "(\<lambda>s. if s = ''7'' then Some 7 else None)"
  let ?clock = "(\<lambda>i. 1759320000000 + int i)"
  let ?st = "\<lparr>searchTerm = ''cisco SECURE'', selectedVendor
      = ''Cisco'', selectedSeverity = ''Critical'', selectedCWE = ''CWE-862'', dateRange
          = ''7'', sortBy = ''dueDate'', sortOrder = ''asc''\<rparr>"
  have perm: "\<forall>xs. mset (insertion_sort (compare_threats ?parse st) xs) = mset xs" for st
    by (simp add: mset_insertion_sort)
  note at_st = filteredThreats_conjunctive[where sorter = insertion_sort and parse = ?parse
      and st = ?st and lower = ascii_toLowerCase and parseInt = ?parseInt and clock = ?clock
      and threats = mockThreats, OF perm]
  note at_init = filteredThreats_conjunctive[where sorter = insertion_sort and parse = ?parse
      and st = initial_state and lower = ascii_toLowerCase and parseInt = ?parseInt
      and clock = ?clock and threats = mockThreats, OF perm]
  from at_st
  have "mset (filteredThreats insertion_sort ascii_toLowerCase ?parse ?parseInt ?clock ?st mockThreats)
      = mset (map ((!) mockThreats)
          (filter (\<lambda>i. filter_callback ascii_toLowerCase ?parse ?parseInt ?st (?clock i)
                     (mockThreats ! i)) [0..<length mockThreats]))"
    by (simp only: filter_callback_iff)
  then have one: "mset (filteredThreats insertion_sort ascii_toLowerCase ?parse ?parseInt ?clock ?st
      mockThreats) = mset [mockThreats ! 0]"
    unfolding selected_positions by simp
  have init: "searchTerm initial_state = [] \<and> selectedVendor initial_state = ''all''
     \<and> selectedSeverity initial_state = ''all'' \<and> selectedCWE initial_state = ''all''
     \<and> dateRange initial_state = ''all''"
    by (simp add: initial_state_def)
  from at_init init
  have every: "mset (filteredThreats insertion_sort ascii_toLowerCase ?parse ?parseInt ?clock
      initial_state mockThreats) = mset mockThreats"
    by blast
  show ?thesis using perm one init every by blast
qed

subsection \<open>Source registry\<close>






subsection \<open>Cache store\<close>

text \<open>
  C5. For every key and payload, put(key, payload) followed at once by get(key)
  returns an entry whose payload is the one that was put and which is fresh under the
  configured ttl, a positive duration; put overwrites an entry already stored under
  the key and leaves the other keys alone.
\<close>

theorem cache_round_trip:
  "0 < ttl \<Longrightarrow>
   (\<exists>entry. get (put c now k p) k = Some entry \<and> payload entry = p
        \<and> fetched_at entry = now \<and> is_fresh now entry ttl)
   \<and> put (put c t0 k p0) now k p = put c now k p
   \<and> (\<forall>k'. k' \<noteq> k \<longrightarrow> get (put c now k p) k' = get c k')"
  by (simp add: get_def put_def is_fresh_def)

theorem cache_round_trip_witness:
  "(0::int) < 86400
   \<and> (\<exists>entry. get (put Map.empty 1000 ''cybersecurity:federal:'' ''payload'')
                  ''cybersecurity:federal:'' = Some entry
          \<and> payload entry = ''payload'' \<and> fetched_at entry = 1000
          \<and> is_fresh 1000 entry 86400)"
proof -
  have pos: "(0::int) < 86400" by simp
  from cache_round_trip[OF pos, of Map.empty 1000 "''cybersecurity:federal:''" "''payload''"]
  show ?thesis using pos by blast
qed

subsection \<open>Scroll loop\<close>

lemma loop_stage: "stage (scroll_loop mi ms ni tmo idle s) = Done"
  by (induction mi ms ni tmo idle s rule: scroll_loop.induct)
     (subst scroll_loop.simps, auto simp: Let_def)

lemma loop_items_le:
  "items_extracted s \<le> mi \<Longrightarrow> items_extracted (scroll_loop mi ms ni tmo idle s) \<le> mi"
  by (induction mi ms ni tmo idle s rule: scroll_loop.induct)
     (subst scroll_loop.simps, auto simp: Let_def min_def)

lemma loop_bound:
  "items_extracted s \<le> mi \<Longrightarrow> idle \<le> ms \<Longrightarrow>
   scroll_count (scroll_loop mi ms ni tmo idle s) + idle
     \<le> scroll_count s + (mi - items_extracted s) * (ms + 1) + ms"
proof (induction mi ms ni tmo idle s rule: scroll_loop.induct)
  case (1 mi ms ni tmo idle s)
  show ?case
  proof (cases "mi \<le> items_extracted s \<or> ms \<le> idle \<or> tmo (scroll_count s)")
    case True
    then show ?thesis using "1.prems" by (subst scroll_loop.simps) simp
  next
    case False
    define n where "n = min (ni (scroll_count s)) (mi - items_extracted s)"
    let ?s' = "s\<lparr>items_extracted := items_extracted s + n, scroll_count := scroll_count s + 1\<rparr>"
    let ?idle' = "if n = 0 then idle + 1 else 0"
    have step: "scroll_loop mi ms ni tmo idle s = scroll_loop mi ms ni tmo ?idle' ?s'"
      using False by (subst scroll_loop.simps) (simp add: Let_def n_def)
    have le: "items_extracted s + n \<le> mi" using "1.prems" False by (simp add: n_def)
    have idle': "?idle' \<le> ms" using False by auto
    have IH: "scroll_count (scroll_loop mi ms ni tmo ?idle' ?s') + ?idle'
        \<le> scroll_count ?s' + (mi - items_extracted ?s') * (ms + 1) + ms"
      by (rule "1.IH"[OF False n_def]) (use le idle' in simp_all)
    show ?thesis
    proof (cases "n = 0")
      case True
      then show ?thesis using IH unfolding step by simp
    next
      case nz: False
      define a where "a = mi - (items_extracted s + n)"
      define X where "X = a * (ms + 1)"
      define Y where "Y = (mi - items_extracted s) * (ms + 1)"
      have "mi - items_extracted s = a + n" using le by (simp add: a_def)
      then have "Y = X + n * (ms + 1)" by (simp add: X_def Y_def algebra_simps)
      moreover have "ms + 1 \<le> n * (ms + 1)" using nz by (cases n) simp_all
      ultimately have XY: "X + ms + 1 \<le> Y" by linarith
      have "idle < ms" using False by simp
      moreover have "scroll_count (scroll_loop mi ms ni tmo 0 ?s') \<le> scroll_count s + 1 + X + ms"
        using IH nz by (simp add: X_def a_def)
      ultimately have "scroll_count (scroll_loop mi ms ni tmo 0 ?s') + idle \<le> scroll_count s + Y + ms"
        using XY by linarith
      then show ?thesis unfolding step Y_def using nz by simp
    qed
  qed
qed

lemma loop_one_per_scroll:
  "items_extracted s \<le> mi \<Longrightarrow> idle < ms \<Longrightarrow>
   items_extracted (scroll_loop mi ms (\<lambda>k. 1) (\<lambda>k. False) idle s) = mi
   \<and> scroll_count (scroll_loop mi ms (\<lambda>k. 1) (\<lambda>k. False) idle s)
       = scroll_count s + (mi - items_extracted s)"
proof (induction "mi - items_extracted s" arbitrary: s idle)
  case 0
  then show ?case by (subst (1 2) scroll_loop.simps) simp
next
  case (Suc d)
  let ?s' = "s\<lparr>items_extracted := items_extracted s + 1, scroll_count := scroll_count s + 1\<rparr>"
  have lt: "items_extracted s < mi" using Suc.hyps(2) by simp
  have step: "scroll_loop mi ms (\<lambda>k. 1) (\<lambda>k. False) idle s
      = scroll_loop mi ms (\<lambda>k. 1) (\<lambda>k. False) 0 ?s'"
    using lt Suc.prems by (subst scroll_loop.simps) (simp add: Let_def)
  have d: "d = mi - items_extracted ?s'" using Suc.hyps(2) by simp
  have le: "items_extracted ?s' \<le> mi" using lt by simp
  have ms: "0 < ms" using Suc.prems by simp
  show ?case unfolding step using Suc.hyps(1)[OF d le ms] lt by simp
qed

lemma loop_nothing_new:
  "items_extracted s < mi \<Longrightarrow> idle \<le> ms \<Longrightarrow>
   items_extracted (scroll_loop mi ms (\<lambda>k. 0) (\<lambda>k. False) idle s)
       = items_extracted s
   \<and> scroll_count (scroll_loop mi ms (\<lambda>k. 0) (\<lambda>k. False) idle s)
       = scroll_count s + (ms - idle)"
proof (induction "ms - idle" arbitrary: s idle)
  case 0
  then show ?case by (subst (1 2) scroll_loop.simps) simp
next
  case (Suc d)
  let ?s' = "s\<lparr>items_extracted := items_extracted s + 0, scroll_count := scroll_count s + 1\<rparr>"
  have lt: "idle < ms" using Suc.hyps(2) by simp
  have step: "scroll_loop mi ms (\<lambda>k. 0) (\<lambda>k. False) idle s
      = scroll_loop mi ms (\<lambda>k. 0) (\<lambda>k. False) (idle + 1) ?s'"
    using lt Suc.prems by (subst scroll_loop.simps) (simp add: Let_def)
  have d: "d = ms - (idle + 1)" using Suc.hyps(2) by simp
  have it: "items_extracted ?s' < mi" using Suc.prems by simp
  have le: "idle + 1 \<le> ms" using lt by simp
  show ?case unfolding step using Suc.hyps(1)[OF d it le] lt by simp
qed

text \<open>
  C7. For every source behaviour, every pair of caps and every timeout behaviour the
  scroll-and-extract loop terminates, in the stage done, with at most max_items items
  and after at most max_items * (max_scrolls + 1) + max_scrolls scrolls. With caps of
  at least 1 and no timeout: if every scroll yields one new item the loop stops after
  exactly max_items scrolls with max_items items, and if every scroll yields no new
  item it stops after exactly max_scrolls scrolls.
\<close>

theorem scroll_loop_bounded:
  "stage (scroll_loop max_items max_scrolls new_items timed_out 0 extracting) = Done
   \<and> items_extracted (scroll_loop max_items max_scrolls new_items timed_out 0 extracting)
       \<le> max_items
   \<and> scroll_count (scroll_loop max_items max_scrolls new_items timed_out 0 extracting)
       \<le> max_items * (max_scrolls + 1) + max_scrolls
   \<and> (0 < max_scrolls \<and> (\<forall>k. new_items k = 1)
       \<and> (\<forall>k. \<not> timed_out k) \<longrightarrow>
        items_extracted (scroll_loop max_items max_scrolls new_items timed_out 0 extracting)
          = max_items
        \<and> scroll_count (scroll_loop max_items max_scrolls new_items timed_out 0 extracting)
          = max_items)
   \<and> (0 < max_items \<and> (\<forall>k. new_items k = 0)
       \<and> (\<forall>k. \<not> timed_out k) \<longrightarrow>
        items_extracted (scroll_loop max_items max_scrolls new_items timed_out 0 extracting) = 0
        \<and> scroll_count (scroll_loop max_items max_scrolls new_items timed_out 0 extracting)
          = max_scrolls)"
proof -
  let ?run = "scroll_loop max_items max_scrolls new_items timed_out 0 extracting"
  have init: "items_extracted extracting = 0" "scroll_count extracting = 0"
    by (simp_all add: extracting_def)
  have a: "stage ?run = Done" by (rule loop_stage)
  have b: "items_extracted ?run \<le> max_items"
    by (rule loop_items_le) (simp add: init)
  have c: "scroll_count ?run \<le> max_items * (max_scrolls + 1) + max_scrolls"
    using loop_bound[of extracting max_items 0 max_scrolls new_items timed_out]
    by (simp add: init)
  have d: "0 < max_scrolls \<and> (\<forall>k. new_items k = 1)
      \<and> (\<forall>k. \<not> timed_out k) \<longrightarrow>
      items_extracted ?run = max_items \<and> scroll_count ?run = max_items"
  proof (intro impI, elim conjE)
    assume that: "0 < max_scrolls" "\<forall>k. new_items k = 1" "\<forall>k. \<not> timed_out k"
    have "new_items = (\<lambda>k. 1)" "timed_out = (\<lambda>k. False)" using that by auto
    then show "items_extracted ?run = max_items \<and> scroll_count ?run = max_items"
      using loop_one_per_scroll[of extracting max_items 0 max_scrolls] that(1)
      by (simp add: init)
  qed
  have e: "0 < max_items \<and> (\<forall>k. new_items k = 0)
      \<and> (\<forall>k. \<not> timed_out k) \<longrightarrow>
      items_extracted ?run = 0 \<and> scroll_count ?run = max_scrolls"
  proof (intro impI, elim conjE)
    assume that: "0 < max_items" "\<forall>k. new_items k = 0" "\<forall>k. \<not> timed_out k"
    have "new_items = (\<lambda>k. 0)" "timed_out = (\<lambda>k. False)" using that by auto
    then show "items_extracted ?run = 0 \<and> scroll_count ?run = max_scrolls"
      using loop_nothing_new[of extracting max_items 0 max_scrolls] that(1)
      by (simp add: init)
  qed
  show ?thesis by (intro conjI a b c d e)
qed

theorem scroll_loop_bounded_witness:
  "(0::nat) < 5 \<and> (0::nat) < 50
   \<and> items_extracted (scroll_loop 50 5 (\<lambda>k. 1) (\<lambda>k. False) 0 extracting) = 50
   \<and> scroll_count (scroll_loop 50 5 (\<lambda>k. 1) (\<lambda>k. False) 0 extracting) = 50
   \<and> items_extracted (scroll_loop 50 5 (\<lambda>k. 0) (\<lambda>k. False) 0 extracting) = 0
   \<and> scroll_count (scroll_loop 50 5 (\<lambda>k. 0) (\<lambda>k. False) 0 extracting) = 5"
proof -
  note one = scroll_loop_bounded[of 50 5 "\<lambda>k. 1" "\<lambda>k. False"]
  note none = scroll_loop_bounded[of 50 5 "\<lambda>k. 0" "\<lambda>k. False"]
  have "items_extracted (scroll_loop 50 5 (\<lambda>k. 1) (\<lambda>k. False) 0 extracting) = 50
     \<and> scroll_count (scroll_loop 50 5 (\<lambda>k. 1) (\<lambda>k. False) 0 extracting) = 50"
    using one by simp
  moreover have "items_extracted (scroll_loop 50 5 (\<lambda>k. 0) (\<lambda>k. False) 0 extracting) = 0
     \<and> scroll_count (scroll_loop 50 5 (\<lambda>k. 0) (\<lambda>k. False) 0 extracting) = 5"
    using none by simp
  ultimately show ?thesis by simp
qed

subsection \<open>Orchestrator\<close>

lemma foldl_merge_counts:
  "sources_attempted (foldl merge r outs)
     = sources_attempted r + length (filter (\<lambda>out. out \<noteq> Skipped) outs)
   \<and> sources_succeeded (foldl merge r outs)
     = sources_succeeded r + length (filter (\<lambda>out. out \<noteq> Skipped
         \<and> \<not> is_error out) outs)"
proof (induction outs arbitrary: r)
  case Nil
  show ?case by simp
next
  case (Cons out outs)
  show ?case by (cases out) (simp_all add: Cons.IH)
qed

lemma every_source_errored_iff:
  "every_source_errored outs \<longleftrightarrow>
     length (filter (\<lambda>out. out \<noteq> Skipped \<and> \<not> is_error out) outs) = 0
     \<and> 0 < length (filter (\<lambda>out. out \<noteq> Skipped) outs)"
  unfolding every_source_errored_def Let_def
  by (auto simp: list_all_iff filter_empty_conv)

lemma collect_sources_degraded:
  "degraded (collect_sources eng creds now domain_name loc flt)
     \<longleftrightarrow> sources_succeeded (collect_sources eng creds now domain_name loc flt) = 0
         \<and> 0 < sources_attempted (collect_sources eng creds now domain_name loc flt)"
  unfolding collect_sources_def Let_def
  by (simp add: foldl_merge_counts every_source_errored_iff)

lemma reachable_entries:
  "reachable c \<Longrightarrow> c k = Some entry \<Longrightarrow>
   (degraded (payload entry)
      \<longleftrightarrow> sources_succeeded (payload entry) = 0
          \<and> 0 < sources_attempted (payload entry))"
proof (induction arbitrary: k entry rule: reachable.induct)
  case start
  then show ?case by simp
next
  case (collected c eng creds now domain_name loc flt use_cache)
  then show ?case
    by (auto simp: collect_domain_data_def Let_def put_def get_def collect_sources_degraded
        split: option.splits if_splits)
next
  case (invalidated c key_prefix)
  then show ?case by (auto simp: invalidate_def split: if_splits)
qed

text \<open>
  C4. For every domain, location and filter set, from every cache the engine can be
  in and whatever the sources do, the CollectionResult returned by
  collect_domain_data has degraded = true if and only if sources_succeeded is 0 and
  sources_attempted is greater than 0; in particular degraded is false as soon as one
  source succeeded, also when no record was collected.
\<close>

theorem degraded_iff_no_source_succeeded:
  "reachable c \<Longrightarrow>
   (degraded (fst (collect_domain_data eng creds now c domain_name loc flt use_cache))
      \<longleftrightarrow> sources_succeeded
            (fst (collect_domain_data eng creds now c domain_name loc flt use_cache)) = 0
          \<and> 0 < sources_attempted
                (fst (collect_domain_data eng creds now c domain_name loc flt use_cache)))
   \<and> (0 < sources_succeeded
            (fst (collect_domain_data eng creds now c domain_name loc flt use_cache))
        \<longrightarrow> \<not> degraded (fst (collect_domain_data eng creds now c domain_name loc flt use_cache)))"
  by (auto simp: collect_domain_data_def Let_def get_def collect_sources_degraded
      dest: reachable_entries split: option.splits if_splits)

lemma one_times_out_result:
  "fst (collect_domain_data one_times_out None 0 Map.empty ''cybersecurity'' ''federal'' [] True)
     = \<lparr>result_domain = ''cybersecurity'', result_location = ''federal'',
        result_collected_at = 0, records = three_items, sources_attempted = 2,
        sources_succeeded = 1, available_filters = [(''severity'', [''High'', ''Low''])],
        degraded = False\<rparr>"
  by (simp add: collect_domain_data_def collect_sources_def get_def resolve_def dispatch_def Let_def
      to_outcome_def one_times_out_def two_sources_def every_source_errored_def
      compute_filters_def facet_fields_def three_items_def List.map_filter_def
      new_Set_def Set_add_def)

lemma both_fail_result:
  "fst (collect_domain_data both_fail None 0 Map.empty ''cybersecurity'' ''federal'' [] True)
     = \<lparr>result_domain = ''cybersecurity'', result_location = ''federal'',
        result_collected_at = 0, records = [], sources_attempted = 2,
        sources_succeeded = 0, available_filters = [], degraded = True\<rparr>"
  by (simp add: collect_domain_data_def collect_sources_def get_def resolve_def dispatch_def Let_def
      to_outcome_def both_fail_def two_sources_def every_source_errored_def
      compute_filters_def facet_fields_def List.map_filter_def new_Set_def)

theorem degraded_iff_no_source_succeeded_witness:
  "reachable Map.empty
   \<and> sources_succeeded
        (fst (collect_domain_data both_fail None 0 Map.empty ''cybersecurity'' ''federal'' [] True))
       = 0
   \<and> sources_attempted
        (fst (collect_domain_data both_fail None 0 Map.empty ''cybersecurity'' ''federal'' [] True))
       = 2
   \<and> degraded
        (fst (collect_domain_data both_fail None 0 Map.empty ''cybersecurity'' ''federal'' [] True))
   \<and> sources_succeeded
        (fst (collect_domain_data one_times_out None 0 Map.empty ''cybersecurity'' ''federal'' [] True))
       = 1
   \<and> \<not> degraded
        (fst (collect_domain_data one_times_out None 0 Map.empty ''cybersecurity'' ''federal'' [] True))"
proof -
  have r: "reachable Map.empty" by (rule reachable.start)
  note fail = degraded_iff_no_source_succeeded[OF r,
      of both_fail None 0 "''cybersecurity''" "''federal''" "[]" True]
  note part = degraded_iff_no_source_succeeded[OF r,
      of one_times_out None 0 "''cybersecurity''" "''federal''" "[]" True]
  have a: "sources_succeeded
        (fst (collect_domain_data both_fail None 0 Map.empty ''cybersecurity'' ''federal'' [] True))
       = 0
     \<and> sources_attempted
        (fst (collect_domain_data both_fail None 0 Map.empty ''cybersecurity'' ''federal'' [] True))
       = 2"
    by (simp add: both_fail_result)
  have b: "sources_succeeded
        (fst (collect_domain_data one_times_out None 0 Map.empty ''cybersecurity'' ''federal'' [] True))
       = 1"
    by (simp add: one_times_out_result)
  from fail a have c: "degraded
        (fst (collect_domain_data both_fail None 0 Map.empty ''cybersecurity'' ''federal'' [] True))"
    by simp
  from part b have d: "\<not> degraded
        (fst (collect_domain_data one_times_out None 0 Map.empty ''cybersecurity'' ''federal'' [] True))"
    by simp
  show ?thesis using r a b c d by blast
qed

subsection \<open>Pagination\<close>

lemma totalPages_div: "totalPages xs = int ((length xs + 9) div 10)"
  unfolding totalPages_def itemsPerPage_def
  by (simp add: ceiling_divide_eq_div) linarith?

lemma slice_nat:
  "slice xs (int a) (int b) = take (b - a) (drop a xs)"
proof -
  have "take (nat (min (int b) (int (length xs)) - min (int a) (int (length xs)))) (drop (nat (min (int a) (int (length xs)))) xs)
      = take (min b (length xs) - min a (length xs)) (drop (min a (length xs)) xs)"
    by (simp add: min_def nat_diff_distrib')
  also have "\<dots> = take (b - a) (drop a xs)"
    by (cases "a \<le> length xs"; cases "b \<le> length xs") (auto simp: min_def)
  finally show ?thesis unfolding slice_def Let_def by simp
qed

lemma paginated_Suc:
  "paginatedThreats xs (int (Suc q)) = take 10 (drop (q * 10) xs)"
proof -
  have a: "(int (Suc q) - 1) * int itemsPerPage = int (q * 10)"
    by (simp add: itemsPerPage_def)
  have b: "int (Suc q) * int itemsPerPage = int (q * 10 + 10)"
    by (simp add: itemsPerPage_def)
  show ?thesis unfolding paginatedThreats_def a b slice_nat by simp
qed

lemma chunks_concat:
  "length xs \<le> n * 10 \<Longrightarrow> concat (map (\<lambda>q. take 10 (drop (q * 10) xs)) [0..<n]) = xs"
proof (induction n arbitrary: xs)
  case 0 then show ?case by simp
next
  case (Suc n)
  have "concat (map (\<lambda>q. take 10 (drop (q * 10) xs)) [0..<Suc n])
      = take 10 xs @ concat (map (\<lambda>q. take 10 (drop (q * 10) (drop 10 xs))) [0..<n])"
    by (simp add: upt_conv_Cons map_Suc_upt[symmetric] comp_def add.commute del: upt_Suc)
  also have "\<dots> = take 10 xs @ drop 10 xs"
    using Suc.prems by (subst Suc.IH) auto
  finally show ?case by simp
qed

lemma upto_as_upt: "map f [1..int n] = map (\<lambda>q. f (int (Suc q))) [0..<n]"
proof (induction n)
  case 0 then show ?case by simp
next
  case (Suc n)
  have "[1..int (Suc n)] = [1..int n] @ [int (Suc n)]"
    using upto_rec2[of 1 "int (Suc n)"] by simp
  then show ?case using Suc by simp
qed

lemma page_length_le: "length (paginatedThreats xs p) \<le> itemsPerPage"
  unfolding paginatedThreats_def slice_def Let_def itemsPerPage_def
  by (auto simp: min_def max_def)

lemma pages_concat: "concat (map (paginatedThreats xs) [1..totalPages xs]) = xs"
proof -
  let ?n = "(length xs + 9) div 10"
  have "length xs \<le> ?n * 10" by linarith
  then show ?thesis
    unfolding totalPages_div upto_as_upt paginated_Suc by (rule chunks_concat)
qed

lemma one_page:
  assumes "i < length xs"
  shows "\<exists>!p. 1 \<le> p \<and> p \<le> totalPages xs
            \<and> (\<exists>j<length (paginatedThreats xs p).
                  (p - 1) * int itemsPerPage + int j = int i \<and> paginatedThreats xs p ! j
                      = xs ! i)"
proof -
  define q where "q = i div 10"
  define r where "r = i mod 10"
  have i: "i = q * 10 + r" and r: "r < 10" by (simp_all add: q_def r_def)
  have le: "int (Suc q) \<le> totalPages xs"
    unfolding totalPages_div using assms i r by linarith
  have len: "r < length (paginatedThreats xs (int (Suc q)))"
    unfolding paginated_Suc using assms i r by simp
  have nth: "paginatedThreats xs (int (Suc q)) ! r = xs ! i"
    unfolding paginated_Suc using assms i r by simp
  have pos: "(int (Suc q) - 1) * int itemsPerPage + int r = int i"
    using i by (simp add: itemsPerPage_def)
  show ?thesis
  proof (rule ex1I[where a = "int (Suc q)"], goal_cases)
    case 1
    show ?case using le len nth pos by auto
  next
    case (2 p)
    then obtain j where p: "1 \<le> p" and j: "j < length (paginatedThreats xs p)"
      and pj: "(p - 1) * int itemsPerPage + int j = int i" by blast
    have "j < 10" using j page_length_le[of xs p] by (simp add: itemsPerPage_def)
    then show ?case using pj p i r by (simp add: itemsPerPage_def)
  qed
qed

text \<open>
  C9. Pagination partitions the filtered list: totalPages is the ceiling of the length
  divided by itemsPerPage (10), no page holds more than itemsPerPage threats, the
  pages 1 to totalPages concatenated in order give filteredThreats back, and every
  position of filteredThreats lies on exactly one of these pages.
\<close>

theorem pagination_partitions:
  "totalPages xs = \<lceil>real (length xs) / real itemsPerPage\<rceil>
   \<and> itemsPerPage = 10
   \<and> (\<forall>p. length (paginatedThreats xs p) \<le> itemsPerPage)
   \<and> concat (map (paginatedThreats xs) [1..totalPages xs]) = xs
   \<and> (\<forall>i<length xs. \<exists>!p. 1 \<le> p \<and> p \<le> totalPages xs
          \<and> (\<exists>j<length (paginatedThreats xs p).
                (p - 1) * int itemsPerPage + int j = int i
                \<and> paginatedThreats xs p ! j = xs ! i))"
proof -
  have "totalPages xs = \<lceil>real (length xs) / real itemsPerPage\<rceil>"
    by (simp add: totalPages_def)
  moreover have "itemsPerPage = 10"
    by (simp add: itemsPerPage_def)
  ultimately show ?thesis
    using page_length_le[of xs] pages_concat[of xs] one_page[of _ xs] by blast
qed

theorem pagination_partitions_witness:
  "totalPages ''abcdefghijklm'' = 2
   \<and> paginatedThreats ''abcdefghijklm'' 1 = ''abcdefghij''
   \<and> paginatedThreats ''abcdefghijklm'' 2 = ''klm''
   \<and> concat (map (paginatedThreats ''abcdefghijklm'') [1..2]) = ''abcdefghijklm''
   \<and> (11::nat) < length ''abcdefghijklm''
   \<and> (\<exists>!p. 1 \<le> p \<and> p \<le> totalPages ''abcdefghijklm''
          \<and> (\<exists>j<length (paginatedThreats ''abcdefghijklm'' p).
                (p - 1) * int itemsPerPage + int j = int 11
                \<and> paginatedThreats ''abcdefghijklm'' p ! j = ''abcdefghijklm'' ! 11))"
proof -
  have t: "totalPages ''abcdefghijklm'' = 2"
    by (simp add: totalPages_div)
  have p1: "paginatedThreats ''abcdefghijklm'' 1 = ''abcdefghij''"
    using paginated_Suc[of "''abcdefghijklm''" 0] by simp
  have p2: "paginatedThreats ''abcdefghijklm'' 2 = ''klm''"
    using paginated_Suc[of "''abcdefghijklm''" 1] by simp
  have i: "(11::nat) < length ''abcdefghijklm''" by simp
  note main = pagination_partitions[of "''abcdefghijklm''"]
  from main have c: "concat (map (paginatedThreats ''abcdefghijklm'') [1..2]) = ''abcdefghijklm''"
    unfolding t by blast
  from main i have u: "\<exists>!p. 1 \<le> p \<and> p \<le> totalPages ''abcdefghijklm''
          \<and> (\<exists>j<length (paginatedThreats ''abcdefghijklm'' p).
                (p - 1) * int itemsPerPage + int j = int 11
                \<and> paginatedThreats ''abcdefghijklm'' p ! j = ''abcdefghijklm'' ! 11)"
    by blast
  show ?thesis using t p1 p2 c i u by blast
qed

end
